theory Spec2Isabelle
  imports Main "HOL-Library.Log_Nat"
begin

section \<open>The Vestel media player entity (custom\_components/vestel/media\_player.py)\<close>

subsection \<open>Constants the module imports\<close>

text \<open>
  Modelled from the spec: the state constants and the channel media type are imported from
  the host platform (homeassistant.const and the media player constants), which is not part
  of the sources. The spec lists the declared states as unknown, idle, off, playing and
  paused; each constant is the string of that name.
\<close>

definition STATE_IDLE :: string where
  "STATE_IDLE = ''idle''"

definition STATE_UNKNOWN :: string where
  "STATE_UNKNOWN = ''unknown''"

definition STATE_OFF :: string where
  "STATE_OFF = ''off''"

definition STATE_PAUSED :: string where
  "STATE_PAUSED = ''paused''"

definition STATE_PLAYING :: string where
  "STATE_PLAYING = ''playing''"

definition MEDIA_TYPE_CHANNEL :: string where
  "MEDIA_TYPE_CHANNEL = ''channel''"

definition declared_states :: "string list" where
  "declared_states = [STATE_UNKNOWN, STATE_IDLE, STATE_OFF, STATE_PLAYING, STATE_PAUSED]"

text \<open>
  The state names bound at module scope: exactly the five names of the import in lines 17
  to 19. Evaluating any other state name raises NameError, as the interpreter does for a name
  that is neither local, global nor builtin.
\<close>

datatype error =
    NameError string | ValueError | IndexError | OverflowError | ZeroDivisionError
  | CommunicationError

definition module_globals :: "(string \<times> string) list" where
  "module_globals =
     [(''STATE_IDLE'', STATE_IDLE), (''STATE_UNKNOWN'', STATE_UNKNOWN),
      (''STATE_OFF'', STATE_OFF), (''STATE_PAUSED'', STATE_PAUSED),
      (''STATE_PLAYING'', STATE_PLAYING)]"

definition lookup_name :: "string \<Rightarrow> error + string" where
  "lookup_name n = (case map_of module_globals n of None \<Rightarrow> Inl (NameError n) | Some v \<Rightarrow> Inr v)"

subsection \<open>The device handle and the entity\<close>

text \<open>
  What the entity does to the outside is recorded in order: every awaited call on the device
  handle, the settle delay \<open>asyncio.sleep\<close>, and the state write handed to the host by
  \<open>hass.async_add_job(self.async_update_ha_state())\<close>.
\<close>

datatype event =
    sendkey int
  | update
  | turn_on
  | turn_off
  | volume_up
  | volume_down
  | toggle_mute
  | next_track
  | previous_track
  | start_netflix
  | stop_netflix
  | start_youtube
  | stop_youtube
  | sleep nat
  | update_ha_state

text \<open>
  The device handle is an object of the library pyvesteltv. The entity reads four things from
  it: \<open>get_state()\<close>, \<open>get_media_title()\<close> (a string or None), the attribute \<open>source\<close>
  (a string or None) and \<open>get_muted()\<close>.
\<close>

record device =
  get_state :: bool
  get_media_title :: "string option"
  device_source :: "string option"
  get_muted :: bool

record entity =
  sources_list :: "string list"
  current_source :: string
  state :: string
  device :: device
  trace :: "event list"

text \<open>
  A command either returns (\<open>Inr\<close>, the entity afterwards) or raises (\<open>Inl\<close>, the
  exception with the entity as it is at the raise: what was sent before stays sent).
\<close>

type_synonym outcome = "(error \<times> entity) + entity"

definition entity_of :: "outcome \<Rightarrow> entity" where
  "entity_of r = (case r of Inl (e, w) \<Rightarrow> w | Inr w \<Rightarrow> w)"

text \<open>
  \<open>await c w\<close> is an awaited call that returns: the call is appended to the trace. A device
  call that fails on the link raises out of the command at that point; the commands below are
  modelled on a link that answers, except the poll, whose refresh may fail.
\<close>

definition await :: "event \<Rightarrow> entity \<Rightarrow> entity" where
  "await c w = w\<lparr>trace := trace w @ [c]\<rparr>"

text \<open>
  Modelled from the spec: \<open>toggle_mute\<close> of the device handle (pyvesteltv, not part of the
  sources) toggles the mute flag of the television rather than setting it.
\<close>

definition device_toggle_mute :: "entity \<Rightarrow> entity" where
  "device_toggle_mute w =
     (await toggle_mute w)\<lparr>device := (device w)\<lparr>get_muted := \<not> get_muted (device w)\<rparr>\<rparr>"

text \<open>Lines 78 to 89: the constructor; \<open>sources_list[0]\<close> raises on an empty list.\<close>

definition init :: "string list \<Rightarrow> device \<Rightarrow> error + entity" where
  "init srcs d =
     (case srcs of
        [] \<Rightarrow> Inl IndexError
      | s # _ \<Rightarrow> Inr \<lparr>sources_list = srcs, current_source = s, state = STATE_UNKNOWN,
                      device = d, trace = []\<rparr>)"

subsection \<open>Python primitives\<close>

text \<open>\<open>sub in s\<close> on strings: \<open>sub\<close> occurs in \<open>s\<close> as a contiguous run.\<close>

fun str_contains :: "string \<Rightarrow> string \<Rightarrow> bool" where
  "str_contains [] sub = (sub = [])"
| "str_contains (c # cs) sub = (take (length sub) (c # cs) = sub \<or> str_contains cs sub)"

text \<open>\<open>xs.index(x)\<close>: the first position of \<open>x\<close>, ValueError when there is none.\<close>

fun list_index :: "'a list \<Rightarrow> 'a \<Rightarrow> error + nat" where
  "list_index [] x = Inl ValueError"
| "list_index (y # ys) x =
     (if y = x then Inr 0
      else (case list_index ys x of Inl e \<Rightarrow> Inl e | Inr i \<Rightarrow> Inr (Suc i)))"

text \<open>
  \<open>int(a / b)\<close> on integers. The interpreter divides two integers into a double, the
  quotient rounded to the nearest value with a 53-bit mantissa, ties to the even mantissa,
  and raises OverflowError when the rounded quotient reaches \<open>2 ^ 1024\<close>; \<open>int\<close> then
  truncates the double towards zero. A double is held here as a mantissa \<open>m\<close> and an
  exponent \<open>e\<close>, its value being \<open>m * 2 ^ e\<close>; a power of two with an exponent of either
  sign is split into the factor \<open>scale_num e\<close> of the numerator and the factor
  \<open>scale_den e\<close> of the denominator. Quotients below the normal range of doubles are
  rounded to 53 bits as well; they are below one, and truncate to zero either way.
\<close>

definition scale_num :: "int \<Rightarrow> int" where
  "scale_num e = (if e < 0 then 2 ^ nat (- e) else 1)"

definition scale_den :: "int \<Rightarrow> int" where
  "scale_den e = (if 0 \<le> e then 2 ^ nat e else 1)"

definition round_half_even :: "int \<Rightarrow> int \<Rightarrow> int" where
  \<comment> \<open>\<open>num / den\<close> to the nearest integer, a tie to the even one; \<open>den\<close> positive\<close>
  "round_half_even num den =
     (let q = num div den; r = num mod den
      in if 2 * r < den then q
         else if den < 2 * r then q + 1
         else if even q then q else q + 1)"

definition double_exponent :: "int \<Rightarrow> int \<Rightarrow> int" where
  \<comment> \<open>the exponent \<open>e\<close> with \<open>2 ^ 52 \<le> a / (b * 2 ^ e) < 2 ^ 53\<close>; \<open>a\<close>, \<open>b\<close> positive\<close>
  "double_exponent a b =
     (let s = bitlen a - bitlen b - 1
      in if a * scale_num (s + 1) < b * scale_den (s + 1) then s - 52 else s - 51)"

definition int_truediv :: "int \<Rightarrow> int \<Rightarrow> error + int" where
  \<comment> \<open>\<open>int(a / b)\<close> for positive \<open>a\<close> and \<open>b\<close>\<close>
  "int_truediv a b =
     (let e = double_exponent a b;
          m = round_half_even (a * scale_num e) (b * scale_den e)
      in if 2 ^ 1024 * scale_num e \<le> m * scale_den e then Inl OverflowError
         else Inr ((m * scale_den e) div scale_num e))"

definition int_quot :: "int \<Rightarrow> int \<Rightarrow> error + int" where
  "int_quot a b =
     (if b = 0 then Inl ZeroDivisionError
      else if a = 0 then Inr 0
      else (case int_truediv \<bar>a\<bar> \<bar>b\<bar> of
              Inl x \<Rightarrow> Inl x
            | Inr k \<Rightarrow> Inr (sgn a * sgn b * k)))"

text \<open>
  \<open>int(media_id)\<close>: the media id either converts to an integer or the conversion raises
  ValueError.
\<close>

datatype media_id = Int_like int | Not_int_like string

definition py_int :: "media_id \<Rightarrow> error + int" where
  "py_int m = (case m of Int_like n \<Rightarrow> Inr n | Not_int_like s \<Rightarrow> Inl ValueError)"

subsection \<open>The poll\<close>

text \<open>
  Lines 125 to 139. The argument is what \<open>device.update()\<close> brings back: \<open>None\<close> when
  the refresh fails (the exception leaves the entity as it was), otherwise the refreshed
  readings of the handle.
\<close>

definition title_of :: "device \<Rightarrow> string" where
  \<comment> \<open>line 132: \<open>self.media_title if self.media_title else ""\<close>\<close>
  "title_of d = (case get_media_title d of
                   None \<Rightarrow> ''''
                 | Some t \<Rightarrow> if t \<noteq> [] then t else '''')"

definition async_update :: "device option \<Rightarrow> entity \<Rightarrow> outcome" where
  "async_update refreshed w =
     (case refreshed of
        None \<Rightarrow> Inl (CommunicationError, await update w)
      | Some d \<Rightarrow>
          (let w1 = (await update w)\<lparr>device := d\<rparr>;
               w2 = (if get_state (device w1) then w1\<lparr>state := STATE_PLAYING\<rparr>
                     else w1\<lparr>state := STATE_OFF\<rparr>);
               media_title = title_of (device w2);
               source = device_source (device w2)
           in if str_contains media_title ''TV'' then Inr (w2\<lparr>current_source := ''TV''\<rparr>)
              else if media_title \<in> set (sources_list w2)
                then Inr (w2\<lparr>current_source := media_title\<rparr>)
              else (case source of
                      None \<Rightarrow> Inr w2
                    | Some s \<Rightarrow> if s \<in> set (sources_list w2)
                                then Inr (w2\<lparr>current_source := s\<rparr>) else Inr w2)))"

subsection \<open>The commands\<close>

text \<open>
  Lines 159 to 171. The guards compare with \<open>is\<close>; the state only ever holds one of the
  module's constants, for which identity and equality coincide.
\<close>

definition async_turn_off :: "entity \<Rightarrow> outcome" where
  "async_turn_off w =
     (if state w \<noteq> STATE_OFF
      then Inr (await update_ha_state ((await turn_off w)\<lparr>state := STATE_OFF\<rparr>))
      else Inr w)"

definition async_turn_on :: "entity \<Rightarrow> outcome" where
  "async_turn_on w =
     (if state w = STATE_OFF
      then Inr (await update_ha_state ((await turn_on w)\<lparr>state := STATE_PLAYING\<rparr>))
      else Inr w)"

definition async_volume_up :: "entity \<Rightarrow> outcome" where
  "async_volume_up w = Inr (await volume_up w)"

definition async_volume_down :: "entity \<Rightarrow> outcome" where
  "async_volume_down w = Inr (await volume_down w)"

text \<open>Lines 185 to 187.\<close>

definition async_mute_volume :: "bool \<Rightarrow> entity \<Rightarrow> outcome" where
  "async_mute_volume mute w = Inr (device_toggle_mute w)"

text \<open>Lines 189 to 205.\<close>

definition async_media_play :: "entity \<Rightarrow> outcome" where
  "async_media_play w =
     Inr (await update_ha_state ((await (sendkey 1025) w)\<lparr>state := STATE_PLAYING\<rparr>))"

definition async_media_pause :: "entity \<Rightarrow> outcome" where
  "async_media_pause w =
     Inr (await update_ha_state ((await (sendkey 1049) w)\<lparr>state := STATE_PAUSED\<rparr>))"

definition async_media_stop :: "entity \<Rightarrow> outcome" where
  "async_media_stop w =
     (let w1 = await (sendkey 1024) w
      in case lookup_name ''STATE_STOP'' of
           Inl e \<Rightarrow> Inl (e, w1)
         | Inr v \<Rightarrow> Inr (await update_ha_state (w1\<lparr>state := v\<rparr>)))"

definition async_media_next_track :: "entity \<Rightarrow> outcome" where
  "async_media_next_track w = Inr (await next_track w)"

definition async_media_previous_track :: "entity \<Rightarrow> outcome" where
  "async_media_previous_track w = Inr (await previous_track w)"

definition async_send_key :: "int \<Rightarrow> entity \<Rightarrow> outcome" where
  "async_send_key key w = Inr (await (sendkey key) w)"

text \<open>
  Lines 215 to 224. The three key expressions of lines 220, 222 and 223; each raises what
  its division raises.
\<close>

definition hundreds_key :: "int \<Rightarrow> error + int" where
  "hundreds_key channel =
     (case int_quot channel 100 of Inl e \<Rightarrow> Inl e | Inr q \<Rightarrow> Inr (1000 + q))"

definition tens_key :: "int \<Rightarrow> error + int" where
  "tens_key channel =
     (case int_quot channel 10 of Inl e \<Rightarrow> Inl e | Inr q \<Rightarrow> Inr (1000 + q))"

definition units_key :: "int \<Rightarrow> error + int" where
  "units_key channel =
     (case int_quot channel 10 of Inl e \<Rightarrow> Inl e | Inr q \<Rightarrow> Inr (1000 - q * 10 + channel))"

text \<open>
  \<open>await self.device.sendkey(expr)\<close>: the argument is evaluated first; when it raises,
  nothing is sent.
\<close>

definition send_computed :: "error + int \<Rightarrow> entity \<Rightarrow> outcome" where
  "send_computed key w =
     (case key of Inl e \<Rightarrow> Inl (e, w) | Inr k \<Rightarrow> Inr (await (sendkey k) w))"

definition async_play_media :: "string \<Rightarrow> media_id \<Rightarrow> entity \<Rightarrow> outcome" where
  "async_play_media media_type mid w =
     (if media_type = MEDIA_TYPE_CHANNEL
      then (case py_int mid of
              Inl e \<Rightarrow> Inl (e, w)
            | Inr channel \<Rightarrow>
                (case (if channel > 99 then send_computed (hundreds_key channel) w
                       else Inr w) of
                   Inl x \<Rightarrow> Inl x
                 | Inr w1 \<Rightarrow>
                     (case (if channel > 9 then send_computed (tens_key channel) w1
                            else Inr w1) of
                        Inl x \<Rightarrow> Inl x
                      | Inr w2 \<Rightarrow>
                          (case send_computed (units_key channel) w2 of
                             Inl x \<Rightarrow> Inl x
                           | Inr w3 \<Rightarrow> Inr (await (sendkey 1053) w3)))))
      else Inr w)"

text \<open>
  Lines 226 to 242. \<open>leave_app\<close> is the first conditional (lines 228 to 233): the entity's
  \<open>source\<close> property is the stored current source.
\<close>

definition leave_app :: "entity \<Rightarrow> entity" where
  "leave_app w =
     (if current_source w = ''Netflix'' then await (sleep 3) (await stop_netflix w)
      else if current_source w = ''YouTube'' then await (sleep 3) (await stop_youtube w)
      else w)"

definition async_select_source :: "string \<Rightarrow> entity \<Rightarrow> outcome" where
  "async_select_source source w =
     (let w1 = leave_app w
      in if source = ''YouTube'' then Inr ((await start_youtube w1)\<lparr>current_source := source\<rparr>)
         else if source = ''Netflix''
           then Inr ((await start_netflix w1)\<lparr>current_source := source\<rparr>)
         else (let w2 = await (sendkey 1056) w1
               in case list_index (sources_list w2) source of
                    Inl e \<Rightarrow> Inl (e, w2)
                  | Inr i \<Rightarrow>
                      Inr ((await (sendkey (1001 + int i)) w2)\<lparr>current_source := source\<rparr>)))"

subsection \<open>Derived notions and example entities\<close>

text \<open>The events of the first conditional of select-source, by the source being left.\<close>

definition leaving_events :: "string \<Rightarrow> event list" where
  "leaving_events cur =
     (if cur = ''Netflix'' then [stop_netflix, sleep 3]
      else if cur = ''YouTube'' then [stop_youtube, sleep 3] else [])"

fun is_key :: "event \<Rightarrow> bool" where
  "is_key (sendkey k) = True"
| "is_key _ = False"

text \<open>
  An entity with the default source list, as the constructor and one poll of a playing
  television leave it; and one with a source whose name contains \<open>TV\<close>.
\<close>

definition tv :: entity where
  "tv = \<lparr>sources_list = [''TV'', ''Netflix'', ''YouTube''], current_source = ''TV'',
          state = STATE_PLAYING,
          device = \<lparr>get_state = True, get_media_title = None, device_source = None,
                     get_muted = False\<rparr>,
          trace = []\<rparr>"

definition apple_box :: entity where
  "apple_box =
     tv\<lparr>sources_list := [''TV'', ''Apple TV'', ''HDMI 1''], current_source := ''HDMI 1''\<rparr>"

definition apple_title :: device where
  "apple_title = \<lparr>get_state = True, get_media_title = Some ''Apple TV'',
                    device_source = Some ''HDMI 1'', get_muted = False\<rparr>"

section \<open>Properties\<close>

subsection \<open>Primitives\<close>

lemmas state_defs =
  STATE_IDLE_def STATE_UNKNOWN_def STATE_OFF_def STATE_PAUSED_def STATE_PLAYING_def

lemma take_is_prefix: "(take (length sub) s = sub) = (\<exists>ss. s = sub @ ss)"
proof
  assume "take (length sub) s = sub"
  then have "s = sub @ drop (length sub) s"
    by (metis append_take_drop_id)
  then show "\<exists>ss. s = sub @ ss" ..
next
  assume "\<exists>ss. s = sub @ ss"
  then show "take (length sub) s = sub" by auto
qed

text \<open>\<open>str_contains\<close> is the substring test.\<close>

lemma str_contains_iff: "str_contains s sub = (\<exists>ps ss. s = ps @ sub @ ss)"
proof (induction s)
  case Nil
  show ?case by auto
next
  case (Cons c cs)
  show ?case
  proof
    assume "str_contains (c # cs) sub"
    then consider "take (length sub) (c # cs) = sub" | "str_contains cs sub" by auto
    then show "\<exists>ps ss. c # cs = ps @ sub @ ss"
    proof cases
      case 1
      then obtain ss where "c # cs = sub @ ss" using take_is_prefix by blast
      then have "c # cs = [] @ sub @ ss" by simp
      then show ?thesis by blast
    next
      case 2
      then obtain ps ss where "cs = ps @ sub @ ss" using Cons.IH by blast
      then have "c # cs = (c # ps) @ sub @ ss" by simp
      then show ?thesis by blast
    qed
  next
    assume "\<exists>ps ss. c # cs = ps @ sub @ ss"
    then obtain ps ss where eq: "c # cs = ps @ sub @ ss" by blast
    show "str_contains (c # cs) sub"
    proof (cases ps)
      case Nil
      with eq have "take (length sub) (c # cs) = sub"
        using take_is_prefix [of sub "c # cs"] by auto
      then show ?thesis by simp
    next
      case (Cons p ps')
      with eq have "cs = ps' @ sub @ ss" by simp
      then have "str_contains cs sub" using Cons.IH by blast
      then show ?thesis by simp
    qed
  qed
qed

lemma list_index_notin: "x \<notin> set xs \<Longrightarrow> list_index xs x = Inl ValueError"
  by (induction xs) auto

lemma list_index_in:
  "x \<in> set xs \<Longrightarrow>
     \<exists>i. list_index xs x = Inr i \<and> i < length xs \<and> xs ! i = x \<and> x \<notin> set (take i xs)"
proof (induction xs)
  case Nil
  then show ?case by simp
next
  case (Cons y ys)
  show ?case
  proof (cases "y = x")
    case True
    then show ?thesis by simp
  next
    case False
    with Cons.prems have "x \<in> set ys" by simp
    then obtain i where "list_index ys x = Inr i" "i < length ys" "ys ! i = x"
      "x \<notin> set (take i ys)"
      using Cons.IH by blast
    with False show ?thesis by simp
  qed
qed

lemma list_index_isl: "isl (list_index xs x) = (x \<notin> set xs)"
  by (induction xs) (auto split: sum.splits)

lemma lookup_STATE_STOP: "lookup_name ''STATE_STOP'' = Inl (NameError ''STATE_STOP'')"
  by (simp add: lookup_name_def module_globals_def)

subsection \<open>The quotient through a double\<close>

lemma rhe_ge_floor: "0 < den \<Longrightarrow> num div den \<le> round_half_even num den"
  by (simp add: round_half_even_def Let_def)

lemma rhe_upper:
  assumes "0 < den"
  shows "2 * (den * round_half_even num den) \<le> 2 * num + den"
proof -
  define q where "q = num div den"
  define r where "r = num mod den"
  have n: "num = den * q + r" by (simp add: q_def r_def)
  have r0: "0 \<le> r" "r < den" using assms by (simp_all add: r_def)
  have "round_half_even num den \<le> (if 2 * r < den then q else q + 1)"
    by (simp add: round_half_even_def Let_def q_def r_def)
  then have "den * round_half_even num den \<le> den * (if 2 * r < den then q else q + 1)"
    using assms by (simp add: mult_left_mono)
  also have "2 * \<dots> \<le> 2 * num + den"
    using r0 n by (simp add: algebra_simps)
  finally show ?thesis by simp
qed

lemma scale_ratio: "real_of_int (scale_den t) = real_of_int (scale_num t) * 2 powi t"
  by (simp add: scale_num_def scale_den_def power_int_def field_simps)

lemma scale_num_pos: "0 < scale_num t"
  by (simp add: scale_num_def)

lemma scaled_less_iff:
  assumes "0 < b"
  shows "(a * scale_num t < b * scale_den t) = (real_of_int a / real_of_int b < 2 powi t)"
proof -
  have "(a * scale_num t < b * scale_den t) =
        (real_of_int a * real_of_int (scale_num t) < real_of_int b * real_of_int (scale_den t))"
    by (metis of_int_less_iff of_int_mult)
  also have "\<dots> = (real_of_int a * real_of_int (scale_num t) <
                   real_of_int b * (real_of_int (scale_num t) * 2 powi t))"
    by (simp add: scale_ratio)
  also have "\<dots> = (real_of_int a < real_of_int b * 2 powi t)"
    using scale_num_pos [of t] by (simp add: mult.left_commute mult.commute)
  also have "\<dots> = (real_of_int a / real_of_int b < 2 powi t)"
    using assms by (simp add: field_simps)
  finally show ?thesis .
qed

lemma bitlen_powi_bounds:
  assumes "0 < x"
  shows "2 powi (bitlen x - 1) \<le> real_of_int x" and "real_of_int x < 2 powi (bitlen x)"
proof -
  have b: "2 ^ nat (bitlen x - 1) \<le> x" "x < 2 ^ nat (bitlen x)"
    using bitlen_bounds [OF assms] by simp_all
  have ge1: "1 \<le> bitlen x" using assms by (simp add: bitlen_alt_def)
  have "real_of_int (2 ^ nat (bitlen x - 1)) \<le> real_of_int x"
    using b(1) of_int_le_iff by blast
  then show "2 powi (bitlen x - 1) \<le> real_of_int x"
    using ge1 by (simp add: power_int_def)
  have "real_of_int x < real_of_int (2 ^ nat (bitlen x))"
    using b(2) of_int_less_iff by blast
  then show "real_of_int x < 2 powi (bitlen x)"
    using ge1 by (simp add: power_int_def)
qed

text \<open>The exponent chosen is not too large: the scaled quotient is at least \<open>2 ^ 52\<close>.\<close>

lemma double_exponent_lower:
  assumes "0 < a" "0 < b"
  shows "2 powi (double_exponent a b + 52) \<le> real_of_int a / real_of_int b"
proof -
  define s where "s = bitlen a - bitlen b - 1"
  show ?thesis
  proof (cases "a * scale_num (s + 1) < b * scale_den (s + 1)")
    case True
    then have e: "double_exponent a b = s - 52"
      by (simp add: double_exponent_def s_def Let_def)
    have "2 powi s * real_of_int b \<le> 2 powi s * 2 powi (bitlen b)"
      using bitlen_powi_bounds(2) [OF assms(2)] by (simp add: mult_left_mono)
    also have "\<dots> = 2 powi (bitlen a - 1)"
      by (simp add: s_def power_int_add [symmetric])
    also have "\<dots> \<le> real_of_int a"
      using bitlen_powi_bounds(1) [OF assms(1)] .
    finally have "2 powi s \<le> real_of_int a / real_of_int b"
      using assms(2) by (simp add: field_simps)
    then show ?thesis by (simp add: e)
  next
    case False
    then have e: "double_exponent a b = s - 51"
      by (simp add: double_exponent_def s_def Let_def)
    from False have "2 powi (s + 1) \<le> real_of_int a / real_of_int b"
      using scaled_less_iff [OF assms(2), of a "s + 1"] by simp
    then show ?thesis by (simp add: e add.commute)
  qed
qed

lemma double_exponent_less:
  assumes "0 < a" "0 < b" "a < b * 2 ^ (52 - j)" "j \<le> 52"
  shows "double_exponent a b < - int j"
proof -
  have "real_of_int a < real_of_int (b * 2 ^ (52 - j))"
    using assms(3) of_int_less_iff by blast
  then have "real_of_int a / real_of_int b < 2 ^ (52 - j)"
    using assms(2) by (simp add: field_simps)
  with double_exponent_lower [OF assms(1,2)]
  have "(2::real) powi (double_exponent a b + 52) < 2 ^ (52 - j)" by linarith
  also have "(2::real) ^ (52 - j) = 2 powi (int (52 - j))" by simp
  finally have "double_exponent a b + 52 < int (52 - j)"
    by (rule power_int_le_imp_less_exp [rotated]) simp_all
  then show ?thesis using assms(4) by simp
qed

text \<open>
  Where the quotient is below \<open>2 ^ (52 - j)\<close> the mantissa keeps more than \<open>j\<close> binary
  places, and the rounded quotient truncates to the integer quotient as long as the distance
  of the remainder from the divisor, scaled by \<open>2 ^ (j + 2)\<close>, exceeds the divisor.
\<close>

lemma int_truediv_exact:
  assumes a: "0 < a" and b: "0 < b"
    and small: "a < b * 2 ^ (52 - j)" and j: "j \<le> 52"
    and room: "b < 2 ^ (j + 2) * (b - a mod b)"
  shows "int_truediv a b = Inr (a div b)"
proof -
  define e where "e = double_exponent a b"
  define k where "k = nat (- e)"
  define P :: int where "P = 2 ^ k"
  define M where "M = round_half_even (a * P) b"
  define m0 where "m0 = a div b"
  define r where "r = a mod b"
  have e_neg: "e < - int j"
    unfolding e_def using a b small j by (rule double_exponent_less)
  then have k_gt: "j < k" by (simp add: k_def)
  have sn: "scale_num e = P" and sd: "scale_den e = 1"
    using e_neg by (simp_all add: scale_num_def scale_den_def P_def k_def)
  have P_pos: "0 < P" by (simp add: P_def)
  have "(2::int) ^ (j + 2) \<le> 2 ^ (k + 1)"
    using k_gt by (intro power_increasing) simp_all
  then have P_big: "2 ^ (j + 2) \<le> 2 * P" by (simp add: P_def)
  have r_bounds: "0 \<le> r" "r < b" using b by (simp_all add: r_def)
  have a_eq: "a = b * m0 + r" by (simp add: m0_def r_def)
  have "2 ^ (j + 2) * (b - r) \<le> (2 * P) * (b - r)"
    using P_big r_bounds by (intro mult_right_mono) simp_all
  moreover have "b < 2 ^ (j + 2) * (b - r)" using room by (simp only: r_def)
  moreover have "(2 * P) * (b - r) = 2 * (P * (b - r))" by (simp only: mult.assoc)
  ultimately have room': "b < 2 * (P * (b - r))" by linarith
  have lower: "m0 * P \<le> M"
  proof -
    have "(m0 * P) * b \<le> a * P"
      using r_bounds P_pos by (simp add: a_eq algebra_simps)
    then have "((m0 * P) * b) div b \<le> (a * P) div b"
      using b by (intro zdiv_mono1)
    then have "m0 * P \<le> (a * P) div b" using b by simp
    also have "\<dots> \<le> M" unfolding M_def using b by (rule rhe_ge_floor)
    finally show ?thesis .
  qed
  have upper: "M < (m0 + 1) * P"
  proof (rule ccontr)
    assume "\<not> M < (m0 + 1) * P"
    then have "(m0 + 1) * P \<le> M" by simp
    then have "b * ((m0 + 1) * P) \<le> b * M"
      using b by (intro mult_left_mono) simp_all
    moreover have "b * ((m0 + 1) * P) = a * P + P * (b - r)"
      by (simp add: a_eq algebra_simps)
    moreover have "2 * (b * M) \<le> 2 * (a * P) + b"
      unfolding M_def using b by (rule rhe_upper)
    ultimately show False using room' by linarith
  qed
  have quot: "M div P = m0"
  proof -
    have "M = P * m0 + (M - P * m0)" by simp
    moreover have "0 \<le> M - P * m0" using lower by (simp add: mult.commute)
    moreover have "M - P * m0 < P" using upper by (simp add: algebra_simps)
    ultimately show ?thesis using int_div_pos_eq by blast
  qed
  have "m0 < 2 ^ (52 - j)"
  proof -
    have "b * m0 \<le> a" using r_bounds a_eq by linarith
    with small have "b * m0 < b * 2 ^ (52 - j)" by linarith
    then show ?thesis using b by (simp only: mult_less_cancel_left_pos)
  qed
  then have "m0 + 1 \<le> 2 ^ (52 - j)" by simp
  also have "(2::int) ^ (52 - j) \<le> 2 ^ 1024" by (intro power_increasing) simp_all
  finally have "(m0 + 1) * P \<le> 2 ^ 1024 * P"
    using P_pos by (intro mult_right_mono) simp_all
  with upper have no_overflow: "\<not> 2 ^ 1024 * P \<le> M" by linarith
  show ?thesis
    unfolding int_truediv_def Let_def e_def [symmetric] sn sd
    using no_overflow quot by (simp add: M_def m0_def)
qed

text \<open>
  Division by 10 and by 100 is exact below \<open>10 * 2 ^ 50 + 9 = 11258999068426249\<close>, the
  first operand whose tenth rounds up to the next integer.
\<close>

lemma int_quot_10:
  assumes "0 \<le> N" "N < 11258999068426249"
  shows "int_quot N 10 = Inr (N div 10)"
proof (cases "N = 0")
  case True
  then show ?thesis by (simp add: int_quot_def)
next
  case False
  with assms have pos: "0 < N" by simp
  have "int_truediv N 10 = Inr (N div 10)"
  proof (cases "N < 11258999068426240")
    case True
    have "N < 10 * 2 ^ (52 - 2)" using True by simp
    moreover have "(10::int) < 2 ^ (2 + 2) * (10 - N mod 10)"
    proof -
      have "N mod 10 < 10" by simp
      then show ?thesis by simp
    qed
    ultimately show ?thesis
      using pos by (intro int_truediv_exact [where j = 2]) simp_all
  next
    case high: False
    have "N < 10 * 2 ^ (52 - 1)" using assms(2) by simp
    moreover have "(10::int) < 2 ^ (1 + 2) * (10 - N mod 10)"
    proof -
      have "N div 10 = 1125899906842624" using high assms(2) by simp
      then have "N mod 10 = N - 10 * 1125899906842624"
        by (metis minus_mult_div_eq_mod)
      with assms(2) have "N mod 10 \<le> 8" by simp
      then show ?thesis by simp
    qed
    ultimately show ?thesis
      using pos by (intro int_truediv_exact [where j = 1]) simp_all
  qed
  with pos show ?thesis by (simp add: int_quot_def)
qed

lemma int_quot_100:
  assumes "0 \<le> N" "N < 11258999068426249"
  shows "int_quot N 100 = Inr (N div 100)"
proof (cases "N = 0")
  case True
  then show ?thesis by (simp add: int_quot_def)
next
  case False
  with assms have pos: "0 < N" by simp
  have "N < 100 * 2 ^ (52 - 5)" using assms(2) by simp
  moreover have "(100::int) < 2 ^ (5 + 2) * (100 - N mod 100)"
  proof -
    have "N mod 100 < 100" by simp
    then show ?thesis by simp
  qed
  ultimately have "int_truediv N 100 = Inr (N div 100)"
    using pos by (intro int_truediv_exact [where j = 5]) simp_all
  with pos show ?thesis by (simp add: int_quot_def)
qed

subsection \<open>Channel entry\<close>

lemma play_media_channel:
  "hundreds_key channel = Inr h \<Longrightarrow> tens_key channel = Inr t \<Longrightarrow>
   units_key channel = Inr u \<Longrightarrow>
     async_play_media MEDIA_TYPE_CHANNEL (Int_like channel) w =
       Inr (w\<lparr>trace := trace w
              @ (if channel > 99 then [sendkey h] else [])
              @ (if channel > 9 then [sendkey t] else [])
              @ [sendkey u, sendkey 1053]\<rparr>)"
  by (simp add: async_play_media_def py_int_def send_computed_def await_def)

lemma keys_in_range:
  assumes "0 \<le> N" "N < 11258999068426249"
  shows "hundreds_key N = Inr (1000 + N div 100)"
    and "tens_key N = Inr (1000 + N div 10)"
    and "units_key N = Inr (1000 + N mod 10)"
proof -
  show "hundreds_key N = Inr (1000 + N div 100)"
    by (simp add: hundreds_key_def int_quot_100 [OF assms])
  show "tens_key N = Inr (1000 + N div 10)"
    by (simp add: tens_key_def int_quot_10 [OF assms])
  have "N = N div 10 * 10 + N mod 10" by simp
  then have "1000 - N div 10 * 10 + N = 1000 + N mod 10" by linarith
  then show "units_key N = Inr (1000 + N mod 10)"
    by (simp add: units_key_def int_quot_10 [OF assms])
qed

text \<open>
  Below 100 the keys sent are the decimal digits of the channel: one digit key below 10,
  the tens and the units from 10 to 99, then the confirm key.
\<close>

lemma keys_below_100:
  assumes "1 \<le> N" "N \<le> 99"
  shows "async_play_media MEDIA_TYPE_CHANNEL (Int_like N) w =
     Inr (w\<lparr>trace := trace w
            @ (if N \<ge> 10 then [sendkey (1000 + N div 10)] else [])
            @ [sendkey (1000 + N mod 10), sendkey 1053]\<rparr>)"
    and "N div 10 < 10"
proof -
  have r: "0 \<le> N" "N < 11258999068426249" using assms by simp_all
  show "async_play_media MEDIA_TYPE_CHANNEL (Int_like N) w =
     Inr (w\<lparr>trace := trace w
            @ (if N \<ge> 10 then [sendkey (1000 + N div 10)] else [])
            @ [sendkey (1000 + N mod 10), sendkey 1053]\<rparr>)"
    using assms play_media_channel [OF keys_in_range [OF r], of w] by auto
  show "N div 10 < 10" using assms by simp
qed

text \<open>
  From 100 on, the second key is \<open>1000 + N div 10\<close>, which is at least 1010: the tens key
  of line 222 is not reduced modulo 10 and so is no digit key.
\<close>

lemma tens_key_from_100:
  assumes "100 \<le> N" "N < 11258999068426249"
  shows "async_play_media MEDIA_TYPE_CHANNEL (Int_like N) w =
     Inr (w\<lparr>trace := trace w
            @ [sendkey (1000 + N div 100), sendkey (1000 + N div 10),
               sendkey (1000 + N mod 10), sendkey 1053]\<rparr>)"
    and "1000 + N div 10 \<ge> 1010"
proof -
  have r: "0 \<le> N" "N < 11258999068426249" using assms by simp_all
  show "async_play_media MEDIA_TYPE_CHANNEL (Int_like N) w =
     Inr (w\<lparr>trace := trace w
            @ [sendkey (1000 + N div 100), sendkey (1000 + N div 10),
               sendkey (1000 + N mod 10), sendkey 1053]\<rparr>)"
    using assms play_media_channel [OF keys_in_range [OF r], of w] by auto
  show "1000 + N div 10 \<ge> 1010" using assms by simp
qed

text \<open>
  A channel whose hundredth is too large for a double raises OverflowError before any key
  is sent.
\<close>

lemma play_media_hundreds_raises:
  "int_quot channel 100 = Inl e \<Longrightarrow> 99 < channel \<Longrightarrow>
     async_play_media MEDIA_TYPE_CHANNEL (Int_like channel) w = Inl (e, w)"
  by (simp add: async_play_media_def py_int_def send_computed_def hundreds_key_def)

lemma play_media_overflow:
  "async_play_media MEDIA_TYPE_CHANNEL (Int_like (2 ^ 1031)) w = Inl (OverflowError, w)"
proof -
  have q: "int_quot (2 ^ 1031) 100 = Inl OverflowError" by code_simp
  have "(2::int) ^ 7 \<le> 2 ^ 1031" by (intro power_increasing) simp_all
  moreover have "(2::int) ^ 7 = 128" by simp
  ultimately have big: "(99::int) < 2 ^ 1031" by linarith
  show ?thesis using q big by (rule play_media_hundreds_raises)
qed

text \<open>
  C1. For a channel number N from 1 to 999, play-media with media type channel is to send
  the digit keys of N (digit d as key 1000 + d): hundreds, tens and units from 100 on, tens
  and units from 10 to 99, the units below 10, then the confirm key 1053. The code does not
  do so from 100 on: for channel 123 it sends 1001, 1012, 1003 and 1053, the second key
  carrying 12 where the tens digit is 2.
\<close>

theorem play_media_channel_123:
  "async_play_media MEDIA_TYPE_CHANNEL (Int_like 123) w =
     Inr (w\<lparr>trace := trace w @ [sendkey 1001, sendkey 1012, sendkey 1003, sendkey 1053]\<rparr>)
   \<and> tens_key 123 = Inr 1012
   \<and> tens_key 123 \<noteq> Inr (1000 + (123 div 10) mod 10)"
proof -
  have r: "(0::int) \<le> 123" "(123::int) < 11258999068426249" by simp_all
  have h: "hundreds_key 123 = Inr 1001" using keys_in_range(1) [OF r] by simp
  have t: "tens_key 123 = Inr 1012" using keys_in_range(2) [OF r] by simp
  have u: "units_key 123 = Inr 1003" using keys_in_range(3) [OF r] by simp
  show ?thesis using play_media_channel [OF h t u, of w] t by simp
qed

text \<open>
  C8, as the code has it. For every positive channel number N below 11258999068426249
  (that is \<open>10 * 2 ^ 50 + 9\<close>) the units key expression of line 223,
  \<open>1000 - int(N / 10) * 10 + N\<close> with the quotient taken through a double, equals
  \<open>1000 + N mod 10\<close>; it is the key sent just before the confirm key.
\<close>

theorem units_key_formula:
  "0 < N \<Longrightarrow> N < 11258999068426249 \<Longrightarrow>
     units_key N = Inr (1000 + N mod 10) \<and>
     (\<exists>w'. async_play_media MEDIA_TYPE_CHANNEL (Int_like N) w = Inr w' \<and>
           last (butlast (trace w')) = sendkey (1000 + N mod 10) \<and>
           last (trace w') = sendkey 1053)"
proof -
  assume "0 < N" and below: "N < 11258999068426249"
  then have r: "0 \<le> N" "N < 11258999068426249" by simp_all
  show ?thesis
    using keys_in_range(3) [OF r] play_media_channel [OF keys_in_range [OF r], of w]
    by (simp add: butlast_append)
qed

theorem units_key_formula_witness:
  "(0::int) < 347 \<and> (347::int) < 11258999068426249 \<and>
   units_key 347 = Inr (1000 + 347 mod 10) \<and>
     (\<exists>w'. async_play_media MEDIA_TYPE_CHANNEL (Int_like 347) tv = Inr w' \<and>
           last (butlast (trace w')) = sendkey (1000 + 347 mod 10) \<and>
           last (trace w') = sendkey 1053)"
  using units_key_formula [of 347 tv] by simp

text \<open>
  C8 as stated, for every positive N, fails: at N = 11258999068426249 the tenth of N rounds
  up to 1125899906842625 in a double, and the units key expression gives 999 where
  \<open>1000 + N mod 10\<close> is 1009.
\<close>

theorem units_key_rounding_counterexample:
  "units_key 11258999068426249 = Inr 999
   \<and> 1000 + 11258999068426249 mod 10 = (1009::int)
   \<and> trace (entity_of (async_play_media MEDIA_TYPE_CHANNEL (Int_like 11258999068426249) tv)) =
       [sendkey 112589990685262, sendkey 1125899906843625, sendkey 999, sendkey 1053]"
proof -
  have q10: "int_quot 11258999068426249 10 = Inr 1125899906842625" by code_simp
  have q100: "int_quot 11258999068426249 100 = Inr 112589990684262" by code_simp
  have u: "units_key 11258999068426249 = Inr 999" by (simp add: units_key_def q10)
  have t: "tens_key 11258999068426249 = Inr 1125899906843625" by (simp add: tens_key_def q10)
  have h: "hundreds_key 11258999068426249 = Inr 112589990685262"
    by (simp add: hundreds_key_def q100)
  show ?thesis
    using play_media_channel [OF h t u, of tv] u by (simp add: entity_of_def tv_def)
qed

subsection \<open>Stop, mute and power\<close>

text \<open>
  C2. The stop command sends the stop key 1024 and is then to set the entity state to the
  stop state, a value outside the declared states. The code names \<open>STATE_STOP\<close> for it on
  line 204, which the module does not bind: the command raises NameError after the key is
  sent, nothing is assigned, the entity state keeps its value and the state write is not
  scheduled, where play and pause assign an imported constant and schedule the write.
\<close>

theorem media_stop_raises:
  "async_media_stop w = Inl (NameError ''STATE_STOP'', w\<lparr>trace := trace w @ [sendkey 1024]\<rparr>)
   \<and> state (entity_of (async_media_stop w)) = state w
   \<and> map_of module_globals ''STATE_STOP'' = None"
  by (simp add: async_media_stop_def lookup_STATE_STOP await_def entity_of_def
      module_globals_def)

text \<open>On a playing entity the state after stop is still playing, a declared state.\<close>

lemma media_stop_on_playing:
  "async_media_stop tv = Inl (NameError ''STATE_STOP'', tv\<lparr>trace := [sendkey 1024]\<rparr>)
   \<and> state (entity_of (async_media_stop tv)) = STATE_PLAYING
   \<and> state (entity_of (async_media_stop tv)) \<in> set declared_states"
  by (simp add: async_media_stop_def lookup_STATE_STOP await_def entity_of_def tv_def
      declared_states_def)

text \<open>
  C3. For every argument the mute command makes the toggle-mute call of the device handle
  and nothing else; the argument does not matter, so two mute calls in a row, with any
  arguments, leave the mute flag of the device as it was before them.
\<close>

theorem mute_toggles:
  "async_mute_volume b w =
     Inr (w\<lparr>trace := trace w @ [toggle_mute],
            device := (device w)\<lparr>get_muted := \<not> get_muted (device w)\<rparr>\<rparr>)
   \<and> async_mute_volume b w = async_mute_volume (\<not> b) w
   \<and> (\<exists>w1 w2. async_mute_volume b w = Inr w1 \<and> async_mute_volume b' w1 = Inr w2 \<and>
         get_muted (device w2) = get_muted (device w) \<and>
         trace w2 = trace w @ [toggle_mute, toggle_mute])"
  by (simp add: async_mute_volume_def device_toggle_mute_def await_def)

text \<open>
  C6. Turn-off does nothing when the state is off and otherwise sends power-off and sets
  the state to off; turn-on does nothing when the state is not off and otherwise sends
  power-on and sets the state to playing. Each command, issued again right after itself,
  does nothing.
\<close>

theorem turn_off_on_guarded:
  "async_turn_off w =
     Inr (if state w = STATE_OFF then w
          else w\<lparr>trace := trace w @ [turn_off, update_ha_state], state := STATE_OFF\<rparr>)
   \<and> async_turn_on w =
     Inr (if state w = STATE_OFF
          then w\<lparr>trace := trace w @ [turn_on, update_ha_state], state := STATE_PLAYING\<rparr>
          else w)
   \<and> (\<exists>w1. async_turn_off w = Inr w1 \<and> async_turn_off w1 = Inr w1)
   \<and> (\<exists>w1. async_turn_on w = Inr w1 \<and> async_turn_on w1 = Inr w1)"
  by (simp add: async_turn_off_def async_turn_on_def await_def state_defs)

subsection \<open>The poll\<close>

text \<open>
  C7. A successful poll sets the state from the playing signal of the device: playing when
  it is true, off when it is false. So a poll never yields paused or idle, and the paused
  state set by the pause command is overwritten by the next successful poll.
\<close>

theorem poll_state:
  "(\<exists>w'. async_update (Some d) w = Inr w' \<and>
         state w' = (if get_state d then STATE_PLAYING else STATE_OFF) \<and>
         state w' \<noteq> STATE_PAUSED \<and> state w' \<noteq> STATE_IDLE)
   \<and> (\<exists>wp w'. async_media_pause w = Inr wp \<and> state wp = STATE_PAUSED \<and>
         async_update (Some d) wp = Inr w' \<and>
         state w' = (if get_state d then STATE_PLAYING else STATE_OFF))"
  by (simp add: async_update_def async_media_pause_def await_def Let_def state_defs
      split: option.split)

lemma poll_source:
  "\<exists>w'. async_update (Some d) w = Inr w' \<and>
     current_source w' =
       (if str_contains (title_of d) ''TV'' then ''TV''
        else if title_of d \<in> set (sources_list w) then title_of d
        else (case device_source d of
                None \<Rightarrow> current_source w
              | Some s \<Rightarrow> if s \<in> set (sources_list w) then s else current_source w))"
  by (simp add: async_update_def await_def Let_def split: option.split)

text \<open>
  C4. A successful poll derives the current source by the first rule that applies: the
  title (empty when the device has none) contains \<open>TV\<close>, then the source is \<open>TV\<close>; else
  the title is a configured source name, then the source is the title; else the source the
  device reports is a configured source name, then the source is that; else the source stays
  as it was. In particular a title that contains \<open>TV\<close> and is a configured source name other
  than \<open>TV\<close> gives the source \<open>TV\<close>.
\<close>

theorem poll_source_precedence:
  "(\<exists>w'. async_update (Some d) w = Inr w' \<and>
      current_source w' =
        (if (\<exists>ps ss. title_of d = ps @ ''TV'' @ ss) then ''TV''
         else if title_of d \<in> set (sources_list w) then title_of d
         else (case device_source d of
                 None \<Rightarrow> current_source w
               | Some s \<Rightarrow> if s \<in> set (sources_list w) then s else current_source w)))
   \<and> ((\<exists>ps ss. title_of d = ps @ ''TV'' @ ss) \<and> title_of d \<in> set (sources_list w) \<and>
        title_of d \<noteq> ''TV''
        \<longrightarrow> current_source (entity_of (async_update (Some d) w)) = ''TV'')"
proof -
  obtain w' where w': "async_update (Some d) w = Inr w'"
    and src: "current_source w' =
       (if str_contains (title_of d) ''TV'' then ''TV''
        else if title_of d \<in> set (sources_list w) then title_of d
        else (case device_source d of
                None \<Rightarrow> current_source w
              | Some s \<Rightarrow> if s \<in> set (sources_list w) then s else current_source w))"
    using poll_source by blast
  have sub: "str_contains (title_of d) ''TV'' = (\<exists>ps ss. title_of d = ps @ ''TV'' @ ss)"
    by (rule str_contains_iff)
  have first: "\<exists>w'. async_update (Some d) w = Inr w' \<and>
      current_source w' =
        (if (\<exists>ps ss. title_of d = ps @ ''TV'' @ ss) then ''TV''
         else if title_of d \<in> set (sources_list w) then title_of d
         else (case device_source d of
                 None \<Rightarrow> current_source w
               | Some s \<Rightarrow> if s \<in> set (sources_list w) then s else current_source w))"
    using w' src sub by simp
  have second: "(\<exists>ps ss. title_of d = ps @ ''TV'' @ ss) \<and>
        title_of d \<in> set (sources_list w) \<and> title_of d \<noteq> ''TV''
        \<longrightarrow> current_source (entity_of (async_update (Some d) w)) = ''TV''"
    using w' src sub by (simp add: entity_of_def)
  from first second show ?thesis by blast
qed

theorem poll_source_precedence_witness:
  "(\<exists>ps ss. title_of apple_title = ps @ ''TV'' @ ss) \<and>
   title_of apple_title \<in> set (sources_list apple_box) \<and>
   title_of apple_title \<noteq> ''TV'' \<and>
   current_source (entity_of (async_update (Some apple_title) apple_box)) = ''TV''"
proof -
  have "''Apple TV'' = ''Apple '' @ ''TV'' @ []" by simp
  then have a: "\<exists>ps ss. title_of apple_title = ps @ ''TV'' @ ss"
    unfolding title_of_def apple_title_def by (simp del: append.simps append_Nil2) blast
  have b: "title_of apple_title \<in> set (sources_list apple_box)"
    by (simp add: title_of_def apple_title_def apple_box_def)
  have c: "title_of apple_title \<noteq> ''TV''"
    by (simp add: title_of_def apple_title_def)
  from a b c poll_source_precedence [of apple_title apple_box] show ?thesis by blast
qed

subsection \<open>Selecting a source\<close>

lemma leave_app_trace:
  "leave_app w = w\<lparr>trace := trace w @ leaving_events (current_source w)\<rparr>"
  by (simp add: leave_app_def leaving_events_def await_def)

lemma select_source_trace:
  "trace (entity_of (async_select_source source w)) =
     trace w @ leaving_events (current_source w) @
       (if source = ''YouTube'' then [start_youtube]
        else if source = ''Netflix'' then [start_netflix]
        else (case list_index (sources_list w) source of
                Inl e \<Rightarrow> [sendkey 1056]
              | Inr i \<Rightarrow> [sendkey 1056, sendkey (1001 + int i)]))"
  by (simp add: async_select_source_def leave_app_trace await_def entity_of_def Let_def
      split: sum.split)

lemma select_source_isl:
  "isl (async_select_source source w) =
     (source \<noteq> ''YouTube'' \<and> source \<noteq> ''Netflix'' \<and>
      isl (list_index (sources_list w) source))"
  by (simp add: async_select_source_def leave_app_trace await_def Let_def split: sum.split)

text \<open>
  C5. With the configured sources TV, Netflix and YouTube, selecting Netflix while the
  current source is YouTube does, in this order, the stop-YouTube call, a delay of 3, the
  start-Netflix call, and sets the current source to Netflix; neither the source-menu key
  nor a digit key is sent.
\<close>

theorem select_netflix_from_youtube:
  "sources_list w = [''TV'', ''Netflix'', ''YouTube''] \<Longrightarrow> current_source w = ''YouTube'' \<Longrightarrow>
     async_select_source ''Netflix'' w =
       Inr (w\<lparr>trace := trace w @ [stop_youtube, sleep 3, start_netflix],
              current_source := ''Netflix''\<rparr>)"
  by (simp add: async_select_source_def leave_app_def await_def)

theorem select_netflix_from_youtube_witness:
  "sources_list (tv\<lparr>current_source := ''YouTube''\<rparr>) = [''TV'', ''Netflix'', ''YouTube''] \<and>
   current_source (tv\<lparr>current_source := ''YouTube''\<rparr>) = ''YouTube'' \<and>
   async_select_source ''Netflix'' (tv\<lparr>current_source := ''YouTube''\<rparr>) =
     Inr (tv\<lparr>trace := [stop_youtube, sleep 3, start_netflix], current_source := ''Netflix''\<rparr>)"
  using select_netflix_from_youtube [of "tv\<lparr>current_source := ''YouTube''\<rparr>"]
  by (simp add: tv_def)

text \<open>
  C9. Select-source has no guard for the source that is already current. For every source
  and every entity the calls made are those of the leaving conditional, which looks at the
  current source only to see whether it is Netflix or YouTube, followed by those of entering
  the target, which do not look at the current source at all. Selecting the current source
  again therefore makes the full sequence: stop, delay and start for Netflix and for YouTube,
  the source-menu key and the digit key for a configured source.
\<close>

theorem select_source_sequence:
  "trace (entity_of (async_select_source source w)) =
     trace w
     @ (if current_source w = ''Netflix'' then [stop_netflix, sleep 3]
        else if current_source w = ''YouTube'' then [stop_youtube, sleep 3] else [])
     @ (if source = ''YouTube'' then [start_youtube]
        else if source = ''Netflix'' then [start_netflix]
        else (case list_index (sources_list w) source of
                Inl e \<Rightarrow> [sendkey 1056]
              | Inr i \<Rightarrow> [sendkey 1056, sendkey (1001 + int i)]))
   \<and> trace (entity_of (async_select_source (current_source w) w)) =
     trace w
     @ (if current_source w = ''Netflix'' then [stop_netflix, sleep 3, start_netflix]
        else if current_source w = ''YouTube'' then [stop_youtube, sleep 3, start_youtube]
        else (case list_index (sources_list w) (current_source w) of
                Inl e \<Rightarrow> [sendkey 1056]
              | Inr i \<Rightarrow> [sendkey 1056, sendkey (1001 + int i)]))
   \<and> isl (async_select_source source w) =
       (source \<noteq> ''YouTube'' \<and> source \<noteq> ''Netflix'' \<and> source \<notin> set (sources_list w))"
proof -
  have one: "trace (entity_of (async_select_source source w)) =
     trace w
     @ (if current_source w = ''Netflix'' then [stop_netflix, sleep 3]
        else if current_source w = ''YouTube'' then [stop_youtube, sleep 3] else [])
     @ (if source = ''YouTube'' then [start_youtube]
        else if source = ''Netflix'' then [start_netflix]
        else (case list_index (sources_list w) source of
                Inl e \<Rightarrow> [sendkey 1056]
              | Inr i \<Rightarrow> [sendkey 1056, sendkey (1001 + int i)]))"
    by (simp add: select_source_trace leaving_events_def)
  have two: "trace (entity_of (async_select_source (current_source w) w)) =
     trace w
     @ (if current_source w = ''Netflix'' then [stop_netflix, sleep 3, start_netflix]
        else if current_source w = ''YouTube'' then [stop_youtube, sleep 3, start_youtube]
        else (case list_index (sources_list w) (current_source w) of
                Inl e \<Rightarrow> [sendkey 1056]
              | Inr i \<Rightarrow> [sendkey 1056, sendkey (1001 + int i)]))"
  proof -
    consider (n) "current_source w = ''Netflix''" | (y) "current_source w = ''YouTube''"
      | (o) "current_source w \<noteq> ''Netflix''" "current_source w \<noteq> ''YouTube''"
      by blast
    then show ?thesis
    proof cases
      case n
      have "trace (entity_of (async_select_source ''Netflix'' w)) =
        trace w @ [stop_netflix, sleep 3, start_netflix]"
        by (simp add: select_source_trace leaving_events_def n)
      then show ?thesis by (simp add: n)
    next
      case y
      have "trace (entity_of (async_select_source ''YouTube'' w)) =
        trace w @ [stop_youtube, sleep 3, start_youtube]"
        by (simp add: select_source_trace leaving_events_def y)
      then show ?thesis by (simp add: y)
    next
      case o
      then show ?thesis
        using select_source_trace [of "current_source w" w]
        by (simp add: leaving_events_def)
    qed
  qed
  have three: "isl (async_select_source source w) =
       (source \<noteq> ''YouTube'' \<and> source \<noteq> ''Netflix'' \<and> source \<notin> set (sources_list w))"
    by (simp add: select_source_isl list_index_isl)
  show ?thesis by (rule conjI [OF one conjI [OF two three]])
qed

text \<open>
  C10. For a source that is neither Netflix nor YouTube and not in the configured list,
  select-source raises (the index lookup fails) after the source-menu key 1056 has been
  sent: that key is the only key emitted, and the current source and the state stay as they
  were.
\<close>

theorem select_unknown_source_raises:
  "source \<noteq> ''Netflix'' \<Longrightarrow> source \<noteq> ''YouTube'' \<Longrightarrow> source \<notin> set (sources_list w) \<Longrightarrow>
     async_select_source source w =
       Inl (ValueError,
            w\<lparr>trace := trace w @ leaving_events (current_source w) @ [sendkey 1056]\<rparr>)
     \<and> filter is_key (leaving_events (current_source w) @ [sendkey 1056]) = [sendkey 1056]
     \<and> current_source (entity_of (async_select_source source w)) = current_source w
     \<and> state (entity_of (async_select_source source w)) = state w"
  by (simp add: async_select_source_def leave_app_trace await_def list_index_notin
      entity_of_def leaving_events_def)

theorem select_unknown_source_raises_witness:
  "''HDMI 4'' \<noteq> ''Netflix'' \<and> ''HDMI 4'' \<noteq> ''YouTube'' \<and> ''HDMI 4'' \<notin> set (sources_list tv) \<and>
   async_select_source ''HDMI 4'' tv = Inl (ValueError, tv\<lparr>trace := [sendkey 1056]\<rparr>) \<and>
   current_source (entity_of (async_select_source ''HDMI 4'' tv)) = ''TV''"
  using select_unknown_source_raises [of "''HDMI 4''" tv]
  by (simp add: tv_def leaving_events_def entity_of_def)

end
